theory Spec2Isabelle
  imports Main "HOL-Library.Word"
begin

section \<open>JavaScript data\<close>

text \<open>
  A JavaScript string is a sequence of UTF-16 code units, and \<^verbatim>\<open>.length\<close> counts code
  units. String literals of the source are ASCII; \<open>lit\<close> turns one into code units.
\<close>

type_synonym code_unit = "16 word"
type_synonym js_string = "code_unit list"

definition lit :: "string \<Rightarrow> js_string" where
  "lit s = map of_char s"

text \<open>The decimal digits of a natural number.\<close>

definition digit :: "nat \<Rightarrow> code_unit" where
  "digit d = of_nat (48 + d)"

function decimal :: "nat \<Rightarrow> js_string" where
  "decimal n = (if n < 10 then [digit n] else decimal (n div 10) @ [digit (n mod 10)])"
  by pat_completeness auto
termination
  by (relation "measure id") auto

declare decimal.simps [simp del]

text \<open>
  The \<^verbatim>\<open>min\<close> or \<^verbatim>\<open>max\<close> of a rule is some JavaScript value, a number by the
  documentation. Besides testing it against \<^verbatim>\<open>undefined\<close>, the code does three things
  with it: it compares a length with it (\<^verbatim>\<open>value.length < min\<close>,
  \<^verbatim>\<open>value.length > max\<close>) and it prints it inside a template literal. A \<open>bound\<close>
  is the value seen through these three uses: \<open>above b n\<close> is \<^verbatim>\<open>n < b\<close>,
  \<open>below b n\<close> is \<^verbatim>\<open>n > b\<close>, and \<open>shown b\<close> is the text of \<^verbatim>\<open>${b}\<close>. Every
  number is such a bound, integer or not, \<^verbatim>\<open>NaN\<close> and the infinities included.
\<close>

record bound =
  above :: "nat \<Rightarrow> bool"
  below :: "nat \<Rightarrow> bool"
  shown :: js_string

text \<open>
  The bound that is a non-negative integer below \<open>2^53\<close>. Such an integer is a double
  without rounding, and JavaScript prints it as its decimal digits.
\<close>

definition safe_integer :: "53 word \<Rightarrow> bound" where
  "safe_integer w =
     \<lparr>above = (\<lambda>n. n < unat w), below = (\<lambda>n. n > unat w), shown = decimal (unat w)\<rparr>"

text \<open>
  The data a parsed JSON text holds. The code never looks inside a number, so the
  representation of numbers is left open as the type parameter \<open>'n\<close>. An object is the
  list of its own properties.
\<close>

datatype 'n json =
    JNull
  | JBool bool
  | JNumber 'n
  | JString js_string
  | JArray "'n json list"
  | JObject "(js_string \<times> 'n json) list"

text \<open>
  The values the handler meets when it reads a property of the body: \<^verbatim>\<open>undefined\<close>,
  JSON data, and what the body inherits from \<^verbatim>\<open>Object.prototype\<close>: the built-in
  function of a given property name, and \<^verbatim>\<open>Object.prototype\<close> itself.
\<close>

datatype 'n jsval =
    JUndefined
  | Json "'n json"
  | NativeFunction js_string
  | ObjectPrototype

text \<open>
  What can be thrown: a \<^verbatim>\<open>TypeError\<close> of the runtime, or whatever a function supplied
  by the integrator (a custom validator, a regular expression's \<^verbatim>\<open>test\<close>) throws.
  Nothing in the source catches either, so a throw ends the handler.
\<close>

datatype js_error = TypeError | UserException

type_synonym 'a result = "js_error + 'a"

subsection \<open>Conversion of a value to a property key\<close>

text \<open>
  \<^verbatim>\<open>ToString\<close> of ECMAScript on JSON data: a string is itself, an array is the join of
  its elements with commas (a \<^verbatim>\<open>null\<close> element giving the empty string), an object is
  \<^verbatim>\<open>[object Object]\<close> unless it has an own property \<^verbatim>\<open>toString\<close>: that property
  holds JSON data, which is not callable, and the conversion then throws a
  \<^verbatim>\<open>TypeError\<close>. The digits of a number are not computed: its text stays symbolic, as
  the token \<open>Rendered n\<close>. So does the source text of a built-in function, whose exact
  form is left to the implementation, as the token \<open>SourceText name\<close>.
\<close>

datatype 'n token = Unit code_unit | Rendered 'n | SourceText js_string

fun ToString :: "'n json \<Rightarrow> 'n token list result"
  and join :: "'n json list \<Rightarrow> 'n token list result" where
  "ToString JNull = Inr (map Unit (lit ''null''))"
| "ToString (JBool b) = Inr (map Unit (lit (if b then ''true'' else ''false'')))"
| "ToString (JNumber n) = Inr [Rendered n]"
| "ToString (JString s) = Inr (map Unit s)"
| "ToString (JArray xs) = join xs"
| "ToString (JObject ps) =
     (if lit ''toString'' \<in> fst ` set ps then Inl TypeError
      else Inr (map Unit (lit ''[object Object]'')))"
| "join [] = Inr []"
| "join (x # xs) =
     (case (if x = JNull then Inr [] else ToString x) of
        Inl e \<Rightarrow> Inl e
      | Inr s \<Rightarrow>
          (if xs = [] then Inr s
           else (case join xs of
                   Inl e \<Rightarrow> Inl e
                 | Inr t \<Rightarrow> Inr (s @ map Unit (lit '','') @ t))))"

definition ToPropertyKey :: "'n jsval \<Rightarrow> 'n token list result" where
  "ToPropertyKey v =
     (case v of
        JUndefined \<Rightarrow> Inr (map Unit (lit ''undefined''))
      | Json d \<Rightarrow> ToString d
      | NativeFunction name \<Rightarrow> Inr [SourceText name]
      | ObjectPrototype \<Rightarrow> Inr (map Unit (lit ''[object Object]'')))"

section \<open>Rules, requests and outcomes\<close>

text \<open>
  A rule as the handler destructures it. \<open>required\<close> is the truthiness of the property
  (\<open>False\<close> when it is left out). A rule written without a \<^verbatim>\<open>type\<close> has the type
  \<^verbatim>\<open>undefined\<close>, which the code only ever uses as the property key and the text
  \<^verbatim>\<open>undefined\<close>: it is the rule with \<open>type = type_omitted\<close>. \<open>min_bound\<close> and
  \<open>max_bound\<close> are \<open>None\<close> when the property is \<^verbatim>\<open>undefined\<close>. \<open>regex\<close> is the
  regular expression's \<^verbatim>\<open>test\<close> method and \<open>customValidator\<close> the integrator's
  function, returning a message or nothing; either may throw.
\<close>

record 'n rule =
  key :: js_string
  type :: js_string
  required :: bool
  min_bound :: "bound option"
  max_bound :: "bound option"
  regex :: "('n jsval \<Rightarrow> bool result) option"
  customValidator :: "('n jsval \<Rightarrow> js_string option result) option"

definition type_omitted :: js_string where
  "type_omitted = lit ''undefined''"

text \<open>
  The request body is the object \<^verbatim>\<open>JSON.parse\<close> made: own properties holding JSON
  data, and \<^verbatim>\<open>Object.prototype\<close> as its prototype.
\<close>

type_synonym 'n json_object = "js_string \<rightharpoonup> 'n json"

record 'n request =
  body :: "'n json_object"

text \<open>
  An object the handler builds by assignments to an object literal: its own properties,
  and its prototype, which an assignment to \<^verbatim>\<open>__proto__\<close> can change.
\<close>

record 'n js_object =
  own :: "js_string \<rightharpoonup> 'n jsval"
  prototype :: "'n jsval"

definition empty_object :: "'n js_object" where
  "empty_object = \<lparr>own = Map.empty, prototype = ObjectPrototype\<rparr>"

record payload =
  status :: nat
  message :: "js_string list"

text \<open>
  What the handler does with the response and the continuation:
  \<^verbatim>\<open>res.status(c).json(p)\<close> is \<open>Responded c p\<close>, and \<^verbatim>\<open>next()\<close> after the
  assignment of an object to \<^verbatim>\<open>req.body\<close> is \<open>Continued\<close> with that object.
\<close>

datatype 'n outcome = Responded nat payload | Continued "'n js_object"

definition HTTP_STATUS_OK :: nat where
  "HTTP_STATUS_OK = 200"

definition HTTP_STATUS_BAD_REQUEST :: nat where
  "HTTP_STATUS_BAD_REQUEST = 400"

text \<open>
  The properties of \<^verbatim>\<open>Object.prototype\<close>: eleven built-in functions, and the accessor
  \<^verbatim>\<open>__proto__\<close>.
\<close>

definition Object_prototype_functions :: "js_string list" where
  "Object_prototype_functions = map lit [''constructor'', ''toString'', ''toLocaleString'',
     ''valueOf'', ''hasOwnProperty'', ''propertyIsEnumerable'', ''isPrototypeOf'',
     ''__defineGetter__'', ''__defineSetter__'', ''__lookupGetter__'', ''__lookupSetter__'']"

definition Object_prototype_names :: "js_string list" where
  "Object_prototype_names = Object_prototype_functions @ [lit ''__proto__'']"

text \<open>
  \<^verbatim>\<open>req.body[key]\<close>: the own property; failing that, the property inherited from
  \<^verbatim>\<open>Object.prototype\<close>, where the getter of \<^verbatim>\<open>__proto__\<close> returns the prototype
  of the body; failing that, \<^verbatim>\<open>undefined\<close>.
\<close>

definition get_property :: "'n json_object \<Rightarrow> js_string \<Rightarrow> 'n jsval" where
  "get_property obj k =
     (case obj k of
        Some d \<Rightarrow> Json d
      | None \<Rightarrow>
          if k \<in> set Object_prototype_functions then NativeFunction k
          else if k = lit ''__proto__'' then ObjectPrototype
          else JUndefined)"

subsection \<open>Assignment to a property\<close>

text \<open>
  \<^verbatim>\<open>obj[k] = v\<close> on an object as above, in a script without the strict-mode directive,
  as the source is. An own property is overwritten. Otherwise the prototype chain
  decides. The chain ends in \<^verbatim>\<open>Object.prototype\<close>, unless the prototype is
  \<^verbatim>\<open>null\<close>, and \<^verbatim>\<open>Object.prototype\<close> has one accessor, \<^verbatim>\<open>__proto__\<close>, whose
  setter makes an object or \<^verbatim>\<open>null\<close> the new prototype and ignores any other value;
  a data property named \<^verbatim>\<open>__proto__\<close> earlier on the chain (a JSON object can have
  one) hides the accessor. The data properties of JSON data, of \<^verbatim>\<open>Array.prototype\<close>
  and of \<^verbatim>\<open>Object.prototype\<close> are writable, and the assignment then creates an own
  property. Only a built-in function as prototype stands in the way: its \<^verbatim>\<open>length\<close>
  and \<^verbatim>\<open>name\<close> (and the \<^verbatim>\<open>prototype\<close> of the constructor \<^verbatim>\<open>Object\<close>) are not
  writable, so that the assignment does nothing, and \<^verbatim>\<open>caller\<close> and
  \<^verbatim>\<open>arguments\<close> of \<^verbatim>\<open>Function.prototype\<close> are accessors whose setter throws.
\<close>

definition is_object :: "'n jsval \<Rightarrow> bool" where
  "is_object v =
     (case v of
        Json (JArray xs) \<Rightarrow> True
      | Json (JObject ps) \<Rightarrow> True
      | NativeFunction name \<Rightarrow> True
      | ObjectPrototype \<Rightarrow> True
      | _ \<Rightarrow> False)"

definition hides_accessor :: "'n jsval \<Rightarrow> bool" where
  "hides_accessor p =
     (case p of
        Json JNull \<Rightarrow> True
      | Json (JObject ps) \<Rightarrow> lit ''__proto__'' \<in> fst ` set ps
      | _ \<Rightarrow> False)"

datatype write_effect = Creates | Ignored | Throws

definition inherited_write :: "'n jsval \<Rightarrow> js_string \<Rightarrow> write_effect" where
  "inherited_write p k =
     (case p of
        NativeFunction name \<Rightarrow>
          if k \<in> set (map lit [''length'', ''name''])
             \<or> (name = lit ''constructor'' \<and> k = lit ''prototype'')
          then Ignored
          else if k \<in> set (map lit [''caller'', ''arguments'']) then Throws
          else Creates
      | _ \<Rightarrow> Creates)"

definition assign :: "'n js_object \<Rightarrow> js_string \<Rightarrow> 'n jsval \<Rightarrow> 'n js_object result" where
  "assign obj k v =
     (if own obj k \<noteq> None then Inr (obj\<lparr>own := (own obj)(k \<mapsto> v)\<rparr>)
      else if k = lit ''__proto__'' then
        (if hides_accessor (prototype obj) then Inr (obj\<lparr>own := (own obj)(k \<mapsto> v)\<rparr>)
         else if is_object v \<or> v = Json JNull then Inr (obj\<lparr>prototype := v\<rparr>)
         else Inr obj)
      else (case inherited_write (prototype obj) k of
              Creates \<Rightarrow> Inr (obj\<lparr>own := (own obj)(k \<mapsto> v)\<rparr>)
            | Ignored \<Rightarrow> Inr obj
            | Throws \<Rightarrow> Inl TypeError))"

section \<open>The validator\<close>

definition isPresent :: "'n jsval \<Rightarrow> bool" where
  "isPresent v \<longleftrightarrow> v \<noteq> JUndefined \<and> v \<noteq> Json JNull \<and> v \<noteq> Json (JString [])"

subsection \<open>Type validation\<close>

definition is_white_space :: "code_unit \<Rightarrow> bool" where
  "is_white_space c \<longleftrightarrow>
     c \<in> set [0x0009, 0x000A, 0x000B, 0x000C, 0x000D, 0x0020, 0x00A0, 0x1680,
              0x2028, 0x2029, 0x202F, 0x205F, 0x3000, 0xFEFF]
     \<or> (0x2000 \<le> c \<and> c \<le> 0x200A)"

definition not_space_or_at :: "code_unit \<Rightarrow> bool" where
  "not_space_or_at c \<longleftrightarrow> \<not> is_white_space c \<and> c \<noteq> 0x40"

text \<open>
  The regular expression \<^verbatim>\<open>/^[^\s@]+@[^\s@]+\.[^\s@]+$/\<close>: a non-empty run of
  characters that are neither white space nor \<^verbatim>\<open>@\<close>, one \<^verbatim>\<open>@\<close>, and a rest of
  such characters that has a dot with at least one character on each side.
\<close>

definition email_test :: "js_string \<Rightarrow> bool" where
  "email_test s =
     (case dropWhile not_space_or_at s of
        [] \<Rightarrow> False
      | c # t \<Rightarrow>
          takeWhile not_space_or_at s \<noteq> [] \<and> c = 0x40 \<and> list_all not_space_or_at t
          \<and> 0x2E \<in> set (butlast (tl t)))"

text \<open>
  The own properties of the object literal \<^verbatim>\<open>typeValidators\<close>. \<^verbatim>\<open>typeof\<close> is
  \<^verbatim>\<open>"object"\<close> for \<^verbatim>\<open>null\<close>, arrays, plain objects and \<^verbatim>\<open>Object.prototype\<close>, and
  \<^verbatim>\<open>"function"\<close> for a built-in function.
\<close>

definition typeValidators :: "js_string \<Rightarrow> ('n jsval \<Rightarrow> bool) option" where
  "typeValidators t =
     (if t = lit ''string''
        then Some (\<lambda>val. case val of Json (JString s) \<Rightarrow> True | _ \<Rightarrow> False)
      else if t = lit ''number''
        then Some (\<lambda>val. case val of Json (JNumber n) \<Rightarrow> True | _ \<Rightarrow> False)
      else if t = lit ''boolean''
        then Some (\<lambda>val. case val of Json (JBool b) \<Rightarrow> True | _ \<Rightarrow> False)
      else if t = lit ''array''
        then Some (\<lambda>val. case val of Json (JArray xs) \<Rightarrow> True | _ \<Rightarrow> False)
      else if t = lit ''object''
        then Some (\<lambda>val. case val of Json JNull \<Rightarrow> True | Json (JObject ps) \<Rightarrow> True
                         | ObjectPrototype \<Rightarrow> True | _ \<Rightarrow> False)
      else if t = lit ''email''
        then Some (\<lambda>val. case val of Json (JString s) \<Rightarrow> email_test s | _ \<Rightarrow> False)
      else if t = lit ''custom-regex'' then Some (\<lambda>val. True)
      else if t = lit ''custom-function'' then Some (\<lambda>val. True)
      else None)"

definition own_names :: "js_string list" where
  "own_names = map lit [''string'', ''number'', ''boolean'', ''array'', ''object'', ''email'',
     ''custom-regex'', ''custom-function'']"

text \<open>
  \<^verbatim>\<open>typeValidators\<close> is an object literal, so a name that is not one of its own
  properties is looked up on \<^verbatim>\<open>Object.prototype\<close>. \<open>inherited_call t v\<close> is the
  truthiness of \<^verbatim>\<open>typeValidators[t](v)\<close> for such a member \<open>t\<close> (\<open>None\<close>: there
  is no such member, and \<^verbatim>\<open>?.\<close> gives \<^verbatim>\<open>undefined\<close>):
  \<^item> \<^verbatim>\<open>constructor\<close>, \<^verbatim>\<open>toString\<close>, \<^verbatim>\<open>toLocaleString\<close> and \<^verbatim>\<open>valueOf\<close>
    return an object or the text \<^verbatim>\<open>[object Object]\<close>;
  \<^item> \<^verbatim>\<open>hasOwnProperty\<close> and \<^verbatim>\<open>propertyIsEnumerable\<close> convert the value to a
    property key and look for an own property of that name;
  \<^item> \<^verbatim>\<open>isPrototypeOf\<close> is false, the fresh literal being no value's prototype;
  \<^item> \<^verbatim>\<open>__defineGetter__\<close> and \<^verbatim>\<open>__defineSetter__\<close> throw, for want of a
    function as second argument;
  \<^item> \<^verbatim>\<open>__lookupGetter__\<close> and \<^verbatim>\<open>__lookupSetter__\<close> return an accessor's function,
    and the only accessor on the chain is \<^verbatim>\<open>__proto__\<close>;
  \<^item> \<^verbatim>\<open>__proto__\<close> is an object and not a function: calling it throws.
\<close>

definition inherited_call :: "js_string \<Rightarrow> 'n jsval \<Rightarrow> bool result option" where
  "inherited_call t v =
     (if t \<in> set (map lit [''constructor'', ''toString'', ''toLocaleString'', ''valueOf''])
        then Some (Inr True)
      else if t \<in> set (map lit [''hasOwnProperty'', ''propertyIsEnumerable''])
        then Some (case ToPropertyKey v of
                     Inl e \<Rightarrow> Inl e
                   | Inr k \<Rightarrow> Inr (k \<in> set (map (map Unit) own_names)))
      else if t = lit ''isPrototypeOf'' then Some (Inr False)
      else if t \<in> set (map lit [''__defineGetter__'', ''__defineSetter__''])
        then Some (Inl TypeError)
      else if t \<in> set (map lit [''__lookupGetter__'', ''__lookupSetter__''])
        then Some (case ToPropertyKey v of
                     Inl e \<Rightarrow> Inl e
                   | Inr k \<Rightarrow> Inr (k = map Unit (lit ''__proto__'')))
      else if t = lit ''__proto__'' then Some (Inl TypeError)
      else None)"

text \<open>The truthiness of \<^verbatim>\<open>typeValidators[type]?.(value)\<close>, or the throw.\<close>

definition type_lookup_call :: "js_string \<Rightarrow> 'n jsval \<Rightarrow> bool result" where
  "type_lookup_call t v =
     (case typeValidators t of
        Some f \<Rightarrow> Inr (f v)
      | None \<Rightarrow> (case inherited_call t v of Some r \<Rightarrow> r | None \<Rightarrow> Inr False))"

text \<open>
  \<open>validateType\<close> returns its boolean result together with the error list, which it
  may have pushed to.
\<close>

definition validateType ::
  "js_string \<Rightarrow> 'n jsval \<Rightarrow> js_string \<Rightarrow> js_string list \<Rightarrow> (bool \<times> js_string list) result" where
  "validateType k v t errors =
     (case type_lookup_call t v of
        Inl e \<Rightarrow> Inl e
      | Inr ok \<Rightarrow>
          (if \<not> ok then Inr (False, errors @ [k @ lit '' should be a valid '' @ t])
           else Inr (True, errors)))"

subsection \<open>Constraint validation\<close>

text \<open>
  \<^verbatim>\<open>value.length\<close>. The comparisons with \<^verbatim>\<open>min\<close> and \<^verbatim>\<open>max\<close> are reached only
  under the type \<^verbatim>\<open>string\<close> or \<^verbatim>\<open>array\<close> and after \<open>validateType\<close> has passed,
  that is for a string or an array; any other value has no length here, and a comparison
  with \<^verbatim>\<open>undefined\<close> is false.
\<close>

definition js_length :: "'n jsval \<Rightarrow> nat option" where
  "js_length v =
     (case v of Json (JString s) \<Rightarrow> Some (length s)
              | Json (JArray xs) \<Rightarrow> Some (length xs)
              | _ \<Rightarrow> None)"

definition length_below :: "'n jsval \<Rightarrow> bound \<Rightarrow> bool" where
  "length_below v m = (case js_length v of Some len \<Rightarrow> above m len | None \<Rightarrow> False)"

definition length_above :: "'n jsval \<Rightarrow> bound \<Rightarrow> bool" where
  "length_above v m = (case js_length v of Some len \<Rightarrow> below m len | None \<Rightarrow> False)"

record 'n vstate =
  errors :: "js_string list"
  validatedData :: "'n js_object"

text \<open>
  The four checks of \<open>validateValue\<close>, in the order of the source; each takes the error
  list and returns it, pushed to or not. A custom validator's result is pushed when it is
  truthy, that is a non-empty message.
\<close>

definition min_check ::
  "js_string \<Rightarrow> 'n jsval \<Rightarrow> js_string \<Rightarrow> bound option \<Rightarrow> js_string list \<Rightarrow> js_string list" where
  "min_check k v t mn es =
     (case mn of
        None \<Rightarrow> es
      | Some m \<Rightarrow>
          if (t = lit ''string'' \<or> t = lit ''array'') \<and> length_below v m
          then es @
               [if t = lit ''string''
                then k @ lit '' should have at least '' @ shown m @ lit '' characters''
                else lit '' '' @ k @ lit '' should have at least '' @ shown m @ lit '' items'']
          else es)"

definition max_check ::
  "js_string \<Rightarrow> 'n jsval \<Rightarrow> js_string \<Rightarrow> bound option \<Rightarrow> js_string list \<Rightarrow> js_string list" where
  "max_check k v t mx es =
     (case mx of
        None \<Rightarrow> es
      | Some m \<Rightarrow>
          if (t = lit ''string'' \<or> t = lit ''array'') \<and> length_above v m
          then es @
               [if t = lit ''string''
                then k @ lit '' should have at most '' @ shown m @ lit '' characters''
                else k @ lit '' should have at most '' @ shown m @ lit '' items;'']
          else es)"

definition regex_check ::
  "js_string \<Rightarrow> 'n jsval \<Rightarrow> js_string \<Rightarrow> ('n jsval \<Rightarrow> bool result) option
     \<Rightarrow> js_string list \<Rightarrow> js_string list result" where
  "regex_check k v t rx es =
     (if t = lit ''custom-regex'' then
        (case rx of
           None \<Rightarrow> Inr es
         | Some test \<Rightarrow>
             (case test v of
                Inl e \<Rightarrow> Inl e
              | Inr matched \<Rightarrow> Inr (if \<not> matched then es @ [k @ lit '' is invalid''] else es)))
      else Inr es)"

definition custom_check ::
  "'n jsval \<Rightarrow> ('n jsval \<Rightarrow> js_string option result) option
     \<Rightarrow> js_string list \<Rightarrow> js_string list result" where
  "custom_check v cv es =
     (case cv of
        None \<Rightarrow> Inr es
      | Some f \<Rightarrow>
          (case f v of
             Inl e \<Rightarrow> Inl e
           | Inr customError \<Rightarrow>
               Inr (case customError of
                      None \<Rightarrow> es
                    | Some msg \<Rightarrow> if msg \<noteq> [] then es @ [msg] else es)))"

text \<open>
  The last statement of \<open>validateValue\<close>: with an empty error list,
  \<^verbatim>\<open>validatedData[key] = value\<close>.
\<close>

definition store_if_clean ::
  "js_string \<Rightarrow> 'n jsval \<Rightarrow> js_string list \<Rightarrow> 'n js_object \<Rightarrow> 'n vstate result" where
  "store_if_clean k v es vd =
     (if es = [] then
        (case assign vd k v of
           Inl e \<Rightarrow> Inl e
         | Inr vd' \<Rightarrow> Inr \<lparr>errors = es, validatedData = vd'\<rparr>)
      else Inr \<lparr>errors = es, validatedData = vd\<rparr>)"

definition validateValue ::
  "js_string \<Rightarrow> 'n jsval \<Rightarrow> js_string \<Rightarrow> bound option \<Rightarrow> bound option
     \<Rightarrow> ('n jsval \<Rightarrow> bool result) option \<Rightarrow> ('n jsval \<Rightarrow> js_string option result) option
     \<Rightarrow> 'n vstate \<Rightarrow> 'n vstate result" where
  "validateValue k v t mn mx rx cv st =
     (case regex_check k v t rx (max_check k v t mx (min_check k v t mn (errors st))) of
        Inl e \<Rightarrow> Inl e
      | Inr es \<Rightarrow>
          (case custom_check v cv es of
             Inl e \<Rightarrow> Inl e
           | Inr es' \<Rightarrow> store_if_clean k v es' (validatedData st)))"

subsection \<open>The handler\<close>

text \<open>The function passed to \<^verbatim>\<open>rules.forEach\<close>, on the two accumulators it closes over.\<close>

definition rule_callback :: "'n request \<Rightarrow> 'n rule \<Rightarrow> 'n vstate \<Rightarrow> 'n vstate result" where
  "rule_callback req r st =
     (let v = get_property (body req) (key r) in
      if required r \<and> \<not> isPresent v
        then Inr (st\<lparr>errors := errors st @ [key r @ lit '' is required'']\<rparr>)
      else if \<not> isPresent v then Inr st
      else (case validateType (key r) v (type r) (errors st) of
              Inl e \<Rightarrow> Inl e
            | Inr (ok, es) \<Rightarrow>
                if \<not> ok then Inr (st\<lparr>errors := es\<rparr>)
                else validateValue (key r) v (type r) (min_bound r) (max_bound r) (regex r)
                       (customValidator r) (st\<lparr>errors := es\<rparr>)))"

fun forEach :: "'n request \<Rightarrow> 'n rule list \<Rightarrow> 'n vstate \<Rightarrow> 'n vstate result" where
  "forEach req [] st = Inr st"
| "forEach req (r # rs) st =
     (case rule_callback req r st of
        Inl e \<Rightarrow> Inl e
      | Inr st' \<Rightarrow> forEach req rs st')"

definition initial :: "'n vstate" where
  "initial = \<lparr>errors = [], validatedData = empty_object\<rparr>"

definition validateRequestBody :: "'n rule list \<Rightarrow> 'n request \<Rightarrow> 'n outcome result" where
  "validateRequestBody rules req =
     (case forEach req rules initial of
        Inl e \<Rightarrow> Inl e
      | Inr st \<Rightarrow>
          if length (errors st) > 0
          then Inr (Responded HTTP_STATUS_OK
                      \<lparr>status = HTTP_STATUS_BAD_REQUEST, message = errors st\<rparr>)
          else Inr (Continued (validatedData st)))"

section \<open>Notions used in the statements\<close>

text \<open>
  A rule object that has only the properties \<^verbatim>\<open>key\<close>, \<^verbatim>\<open>type\<close> and
  \<^verbatim>\<open>required\<close>.
\<close>

definition plain_rule :: "js_string \<Rightarrow> js_string \<Rightarrow> bool \<Rightarrow> 'n rule" where
  "plain_rule k t q =
     \<lparr>key = k, type = t, required = q, min_bound = None, max_bound = None, regex = None,
      customValidator = None\<rparr>"

text \<open>
  The messages one rule pushes: the error list after its callback has run on fresh
  accumulators.
\<close>

definition pushed_by :: "'n request \<Rightarrow> 'n rule \<Rightarrow> js_string list result" where
  "pushed_by req r =
     (case rule_callback req r initial of Inl e \<Rightarrow> Inl e | Inr s \<Rightarrow> Inr (errors s))"

text \<open>
  The error list is still empty when the evaluation of the rule at index \<open>i\<close> has
  completed, the loop having started in state \<open>st\<close>.
\<close>

definition clean_at :: "'n request \<Rightarrow> 'n rule list \<Rightarrow> 'n vstate \<Rightarrow> nat \<Rightarrow> bool" where
  "clean_at req rules st i \<longleftrightarrow>
     (case forEach req (take (Suc i) rules) st of Inl e \<Rightarrow> False | Inr s \<Rightarrow> errors s = [])"

text \<open>
  Closed forms of the messages of \<open>validateValue\<close> and of a whole rule, used in the
  proofs; \<open>rule_callback_char\<close> below relates them to the code.
\<close>

definition value_errors ::
  "js_string \<Rightarrow> 'n jsval \<Rightarrow> js_string \<Rightarrow> bound option \<Rightarrow> bound option
     \<Rightarrow> ('n jsval \<Rightarrow> bool result) option \<Rightarrow> ('n jsval \<Rightarrow> js_string option result) option
     \<Rightarrow> js_string list result" where
  "value_errors k v t mn mx rx cv =
     (case regex_check k v t rx (max_check k v t mx (min_check k v t mn [])) of
        Inl e \<Rightarrow> Inl e
      | Inr es \<Rightarrow> custom_check v cv es)"

definition rule_errors :: "'n request \<Rightarrow> 'n rule \<Rightarrow> js_string list result" where
  "rule_errors req r =
     (let v = get_property (body req) (key r) in
      if required r \<and> \<not> isPresent v then Inr [key r @ lit '' is required'']
      else if \<not> isPresent v then Inr []
      else (case type_lookup_call (type r) v of
              Inl e \<Rightarrow> Inl e
            | Inr ok \<Rightarrow>
                if \<not> ok then Inr [key r @ lit '' should be a valid '' @ type r]
                else value_errors (key r) v (type r) (min_bound r) (max_bound r) (regex r)
                       (customValidator r)))"

text \<open>The prototype of the object is not a built-in function.\<close>

definition plain_prototype :: "'n js_object \<Rightarrow> bool" where
  "plain_prototype obj = (case prototype obj of NativeFunction name \<Rightarrow> False | _ \<Rightarrow> True)"

section \<open>Literals\<close>

lemma unat_of_char16: "unat (of_char c :: 16 word) = of_char c"
proof -
  have "(of_char c :: nat) < 256" by (cases c) (simp add: of_char_def)
  hence "(of_char c :: nat) < 2 ^ LENGTH(16)" by (rule less_trans) simp
  hence "unat (of_nat (of_char c) :: 16 word) = of_char c" by (simp add: unat_of_nat)
  thus ?thesis by (simp only: of_nat_of_char)
qed

lemma lit_eq_iff [simp]: "lit a = lit b \<longleftrightarrow> a = b"
proof
  assume "lit a = lit b"
  hence "map unat (lit a) = map unat (lit b)" by simp
  hence "map (of_char :: char \<Rightarrow> nat) a = map of_char b"
    by (simp add: lit_def unat_of_char16 comp_def)
  thus "a = b" using inj_of_char [where ?'a = nat] by (simp add: inj_map_eq_map)
qed simp

lemma length_lit [simp]: "length (lit s) = length s"
  by (simp add: lit_def)

lemma lit_eq_Nil [simp]: "lit s = [] \<longleftrightarrow> s = []"
  by (simp add: lit_def)

lemma lit_append: "lit (a @ b) = lit a @ lit b"
  by (simp add: lit_def)

lemma safe_integer_1 [simp]:
  "above (safe_integer 1) n \<longleftrightarrow> n < 1" "below (safe_integer 1) n \<longleftrightarrow> n > 1"
  "shown (safe_integer 1) = lit ''1''"
  by (simp_all add: safe_integer_def decimal.simps digit_def lit_def)

lemma safe_integer_2 [simp]:
  "above (safe_integer 2) n \<longleftrightarrow> n < 2" "below (safe_integer 2) n \<longleftrightarrow> n > 2"
  "shown (safe_integer 2) = lit ''2''"
  by (simp_all add: safe_integer_def decimal.simps digit_def lit_def)

lemma safe_integer_3 [simp]:
  "above (safe_integer 3) n \<longleftrightarrow> n < 3" "below (safe_integer 3) n \<longleftrightarrow> n > 3"
  "shown (safe_integer 3) = lit ''3''"
  by (simp_all add: safe_integer_def decimal.simps digit_def lit_def)

lemma safe_integer_18 [simp]:
  "above (safe_integer 18) n \<longleftrightarrow> n < 18" "below (safe_integer 18) n \<longleftrightarrow> n > 18"
  "shown (safe_integer 18) = lit ''18''"
  by (simp_all add: safe_integer_def decimal.simps digit_def lit_def)

lemmas run_simps =
  rule_callback_def get_property_def isPresent_def validateType_def type_lookup_call_def
  typeValidators_def inherited_call_def validateValue_def min_check_def max_check_def
  regex_check_def custom_check_def length_below_def length_above_def js_length_def
  store_if_clean_def assign_def inherited_write_def hides_accessor_def is_object_def
  empty_object_def Object_prototype_functions_def initial_def plain_rule_def Let_def

section \<open>Assignments\<close>

lemma assign_other: "assign obj k v = Inr obj' \<Longrightarrow> k' \<noteq> k \<Longrightarrow> own obj' k' = own obj k'"
  by (auto simp: assign_def split: if_splits write_effect.splits)

lemma assign_keeps: "assign obj k v = Inr obj' \<Longrightarrow> own obj k' \<noteq> None \<Longrightarrow> own obj' k' \<noteq> None"
  by (auto simp: assign_def split: if_splits write_effect.splits)

lemma assign_creates:
  assumes "plain_prototype obj" and "k \<noteq> lit ''__proto__''"
  shows "assign obj k v = Inr (obj\<lparr>own := (own obj)(k \<mapsto> v)\<rparr>)"
  using assms
  by (auto simp: assign_def inherited_write_def plain_prototype_def split: jsval.splits)

lemma assign_plain_total:
  assumes "plain_prototype obj"
  shows "\<exists>obj'. assign obj k v = Inr obj'"
  using assms
  by (auto simp: assign_def inherited_write_def plain_prototype_def split: jsval.splits)

lemma assign_plain_preserved:
  assumes "assign obj k v = Inr obj'" and "plain_prototype obj"
    and "k = lit ''__proto__'' \<Longrightarrow> \<forall>name. v \<noteq> NativeFunction name"
  shows "plain_prototype obj'"
  using assms
  by (auto simp: assign_def plain_prototype_def split: if_splits write_effect.splits jsval.splits)

lemma get_property_proto: "get_property b (lit ''__proto__'') \<noteq> NativeFunction name"
  by (simp add: get_property_def Object_prototype_functions_def split: option.splits)

lemma plain_prototype_empty [simp]: "plain_prototype empty_object"
  by (simp add: plain_prototype_def empty_object_def)

section \<open>What one rule does to the accumulators\<close>

lemma min_check_append: "min_check k v t mn es = es @ min_check k v t mn []"
  by (simp add: min_check_def split: option.splits)

lemma max_check_append: "max_check k v t mx es = es @ max_check k v t mx []"
  by (simp add: max_check_def split: option.splits)

lemma regex_check_append:
  "regex_check k v t rx es = map_sum id ((@) es) (regex_check k v t rx [])"
  by (simp add: regex_check_def split: option.splits sum.splits)

lemma custom_check_append:
  "custom_check v cv es = map_sum id ((@) es) (custom_check v cv [])"
  by (simp add: custom_check_def split: option.splits sum.splits)

lemma validateValue_char:
  "validateValue k v t mn mx rx cv st =
     (case value_errors k v t mn mx rx cv of
        Inl e \<Rightarrow> Inl e
      | Inr app \<Rightarrow> store_if_clean k v (errors st @ app) (validatedData st))"
proof -
  have 1: "min_check k v t mn (errors st) = errors st @ min_check k v t mn []"
    by (rule min_check_append)
  have 2: "max_check k v t mx (errors st @ a) = errors st @ max_check k v t mx a" for a
    by (metis max_check_append append.assoc)
  have 3: "regex_check k v t rx (errors st @ a)
             = map_sum id ((@) (errors st)) (regex_check k v t rx a)" for a
    by (subst regex_check_append, subst (2) regex_check_append)
       (auto split: sum.splits simp: map_sum_def)
  have 4: "custom_check v cv (errors st @ a)
             = map_sum id ((@) (errors st)) (custom_check v cv a)" for a
    by (subst custom_check_append, subst (2) custom_check_append)
       (auto split: sum.splits simp: map_sum_def)
  show ?thesis
    unfolding validateValue_def value_errors_def 1 2 3
    by (auto split: sum.splits simp: 4)
qed

text \<open>
  The callback of a rule, from the messages it pushes: the value is stored, if at all,
  by \<open>store_if_clean\<close> on the extended error list.
\<close>

lemma rule_callback_char:
  "rule_callback req r st =
     (case rule_errors req r of
        Inl e \<Rightarrow> Inl e
      | Inr app \<Rightarrow>
          if isPresent (get_property (body req) (key r))
          then store_if_clean (key r) (get_property (body req) (key r)) (errors st @ app)
                 (validatedData st)
          else Inr \<lparr>errors = errors st @ app, validatedData = validatedData st\<rparr>)"
  by (simp add: rule_callback_def rule_errors_def validateType_def validateValue_char Let_def
        store_if_clean_def split: sum.splits)

lemma store_if_clean_plain:
  assumes "plain_prototype vd"
  shows "\<exists>vd'. store_if_clean k v es vd = Inr \<lparr>errors = es, validatedData = vd'\<rparr>"
  using assign_plain_total [OF assms, of k v]
  by (auto simp: store_if_clean_def)

lemma pushed_by_rule_errors: "pushed_by req r = rule_errors req r"
proof (cases "rule_errors req r")
  case (Inl e)
  then show ?thesis by (simp add: pushed_by_def rule_callback_char)
next
  case (Inr app)
  obtain vd' where
    "store_if_clean (key r) (get_property (body req) (key r)) app (empty_object :: 'a js_object)
       = Inr \<lparr>errors = app, validatedData = vd'\<rparr>"
    using store_if_clean_plain [OF plain_prototype_empty] by blast
  with Inr show ?thesis
    by (simp add: pushed_by_def rule_callback_char initial_def)
qed

lemma rule_callback_Inr:
  assumes "rule_callback req r st = Inr st'"
  obtains app where "pushed_by req r = Inr app" "errors st' = errors st @ app"
    "if errors st' = [] \<and> isPresent (get_property (body req) (key r))
     then assign (validatedData st) (key r) (get_property (body req) (key r))
            = Inr (validatedData st')
     else validatedData st' = validatedData st"
  using assms
  by (subst (asm) rule_callback_char)
     (auto simp: pushed_by_rule_errors store_if_clean_def split: sum.splits if_splits)

lemma rule_callback_plain:
  assumes "rule_callback req r st = Inr st'" and "plain_prototype (validatedData st)"
  shows "plain_prototype (validatedData st')"
proof -
  from assms(1) have
    "if errors st' = [] \<and> isPresent (get_property (body req) (key r))
     then assign (validatedData st) (key r) (get_property (body req) (key r))
            = Inr (validatedData st')
     else validatedData st' = validatedData st"
    by (rule rule_callback_Inr)
  then consider
      (w) "assign (validatedData st) (key r) (get_property (body req) (key r))
             = Inr (validatedData st')"
    | (n) "validatedData st' = validatedData st"
    by (auto split: if_splits)
  then show ?thesis
  proof cases
    case w
    have "\<forall>name. get_property (body req) (key r) \<noteq> NativeFunction name"
      if "key r = lit ''__proto__''"
      using that get_property_proto by metis
    with w assms(2) show ?thesis by (rule assign_plain_preserved)
  next
    case n
    with assms(2) show ?thesis by simp
  qed
qed

section \<open>The loop over the rules\<close>

lemma forEach_errors:
  "forEach req rs st = Inr fin \<Longrightarrow>
     \<exists>ms. map (pushed_by req) rs = map Inr ms \<and> errors fin = errors st @ concat ms"
proof (induction rs arbitrary: st)
  case Nil
  then show ?case by simp
next
  case (Cons r rs)
  from Cons.prems obtain st1 where 1: "rule_callback req r st = Inr st1"
    and 2: "forEach req rs st1 = Inr fin"
    by (auto split: sum.splits)
  from 1 obtain app where a: "pushed_by req r = Inr app" "errors st1 = errors st @ app"
    by (rule rule_callback_Inr)
  from Cons.IH [OF 2] obtain ms where
    m: "map (pushed_by req) rs = map Inr ms" "errors fin = errors st1 @ concat ms"
    by blast
  have "map (pushed_by req) (r # rs) = map Inr (app # ms)"
    using a m by simp
  moreover have "errors fin = errors st @ concat (app # ms)"
    using a m by simp
  ultimately show ?case by blast
qed

lemma forEach_member_pushed:
  assumes "forEach req rules st = Inr fin" and "r \<in> set rules" and "pushed_by req r = Inr ms"
  shows "set ms \<subseteq> set (errors fin)"
proof -
  from forEach_errors [OF assms(1)] obtain mss where
    m: "map (pushed_by req) rules = map Inr mss" "errors fin = errors st @ concat mss"
    by blast
  from assms(2) have "pushed_by req r \<in> set (map (pushed_by req) rules)" by simp
  with m(1) assms(3) have "ms \<in> set mss" by auto
  with m(2) show ?thesis by auto
qed

lemma clean_at_Cons:
  assumes "rule_callback req r st = Inr st1"
  shows "(\<exists>i<length (r # rs). key ((r # rs) ! i) = k \<and> clean_at req (r # rs) st i) \<longleftrightarrow>
        (key r = k \<and> errors st1 = [])
        \<or> (\<exists>j<length rs. key (rs ! j) = k \<and> clean_at req rs st1 j)"
    (is "?L \<longleftrightarrow> ?A \<or> ?B")
proof
  have c0: "clean_at req (r # rs) st 0 \<longleftrightarrow> errors st1 = []"
    by (simp add: clean_at_def assms)
  have cS: "clean_at req (r # rs) st (Suc j) \<longleftrightarrow> clean_at req rs st1 j" for j
    by (simp add: clean_at_def assms)
  {
    assume ?L
    then obtain i where
      i: "i < length (r # rs)" "key ((r # rs) ! i) = k" "clean_at req (r # rs) st i"
      by blast
    show "?A \<or> ?B"
    proof (cases i)
      case 0
      with i c0 show ?thesis by simp
    next
      case (Suc j)
      with i cS have "j < length rs \<and> key (rs ! j) = k \<and> clean_at req rs st1 j" by simp
      then show ?thesis by blast
    qed
  next
    assume "?A \<or> ?B"
    then show ?L
    proof
      assume ?A
      with c0 have "0 < length (r # rs) \<and> key ((r # rs) ! 0) = k \<and> clean_at req (r # rs) st 0"
        by simp
      then show ?L by blast
    next
      assume ?B
      then obtain j where "j < length rs" "key (rs ! j) = k" "clean_at req rs st1 j" by blast
      with cS have "Suc j < length (r # rs) \<and> key ((r # rs) ! Suc j) = k
          \<and> clean_at req (r # rs) st (Suc j)"
        by simp
      then show ?L by blast
    qed
  }
qed

text \<open>One rule: which own properties the sanitized object has afterwards.\<close>

lemma rule_callback_own_only_if:
  assumes "rule_callback req r st = Inr st1" and "own (validatedData st1) k \<noteq> None"
  shows "own (validatedData st) k \<noteq> None
         \<or> (key r = k \<and> errors st1 = [] \<and> isPresent (get_property (body req) k))"
proof -
  from assms(1) have
    "if errors st1 = [] \<and> isPresent (get_property (body req) (key r))
     then assign (validatedData st) (key r) (get_property (body req) (key r))
            = Inr (validatedData st1)
     else validatedData st1 = validatedData st"
    by (rule rule_callback_Inr)
  then consider
      (w) "errors st1 = []" "isPresent (get_property (body req) (key r))"
          "assign (validatedData st) (key r) (get_property (body req) (key r))
             = Inr (validatedData st1)"
    | (n) "validatedData st1 = validatedData st"
    by (auto split: if_splits)
  then show ?thesis
  proof cases
    case w
    show ?thesis
    proof (cases "key r = k")
      case True
      with w show ?thesis by simp
    next
      case False
      then have "own (validatedData st1) k = own (validatedData st) k"
        using assign_other [OF w(3)] by simp
      with assms(2) show ?thesis by simp
    qed
  next
    case n
    with assms(2) show ?thesis by simp
  qed
qed

lemma rule_callback_own_keeps:
  assumes "rule_callback req r st = Inr st1" and "own (validatedData st) k \<noteq> None"
  shows "own (validatedData st1) k \<noteq> None"
proof -
  from assms(1) have
    "if errors st1 = [] \<and> isPresent (get_property (body req) (key r))
     then assign (validatedData st) (key r) (get_property (body req) (key r))
            = Inr (validatedData st1)
     else validatedData st1 = validatedData st"
    by (rule rule_callback_Inr)
  then consider
      (w) "assign (validatedData st) (key r) (get_property (body req) (key r))
             = Inr (validatedData st1)"
    | (n) "validatedData st1 = validatedData st"
    by (auto split: if_splits)
  then show ?thesis
  proof cases
    case w
    from assign_keeps [OF w assms(2)] show ?thesis .
  next
    case n
    with assms(2) show ?thesis by simp
  qed
qed

lemma rule_callback_own_if:
  assumes "rule_callback req r st = Inr st1" and "plain_prototype (validatedData st)"
    and "key r \<noteq> lit ''__proto__''" and "errors st1 = []"
    and "isPresent (get_property (body req) (key r))"
  shows "own (validatedData st1) (key r) \<noteq> None"
proof -
  from assms(1) have
    "if errors st1 = [] \<and> isPresent (get_property (body req) (key r))
     then assign (validatedData st) (key r) (get_property (body req) (key r))
            = Inr (validatedData st1)
     else validatedData st1 = validatedData st"
    by (rule rule_callback_Inr)
  with assms(4,5) have
    "assign (validatedData st) (key r) (get_property (body req) (key r))
       = Inr (validatedData st1)"
    by simp
  with assign_creates [OF assms(2,3), of "get_property (body req) (key r)"]
  have "validatedData st1 = (validatedData st)
          \<lparr>own := (own (validatedData st))(key r \<mapsto> get_property (body req) (key r))\<rparr>"
    by simp
  then have "own (validatedData st1) (key r) = Some (get_property (body req) (key r))"
    by simp
  then show ?thesis by simp
qed

lemma forEach_own_only_if:
  "forEach req rs st = Inr fin \<Longrightarrow> own (validatedData fin) k \<noteq> None \<Longrightarrow>
     own (validatedData st) k \<noteq> None \<or>
     isPresent (get_property (body req) k) \<and>
     (\<exists>i<length rs. key (rs ! i) = k \<and> clean_at req rs st i)"
proof (induction rs arbitrary: st)
  case Nil
  then show ?case by simp
next
  case (Cons r rs)
  from Cons.prems(1) obtain st1 where 1: "rule_callback req r st = Inr st1"
    and 2: "forEach req rs st1 = Inr fin"
    by (auto split: sum.splits)
  from Cons.IH [OF 2 Cons.prems(2)]
  consider (o) "own (validatedData st1) k \<noteq> None"
    | (l) "isPresent (get_property (body req) k)"
          "\<exists>i<length rs. key (rs ! i) = k \<and> clean_at req rs st1 i"
    by blast
  then show ?case
  proof cases
    case o
    from rule_callback_own_only_if [OF 1 o] show ?thesis
      unfolding clean_at_Cons [OF 1] by blast
  next
    case l
    then show ?thesis
      unfolding clean_at_Cons [OF 1] by blast
  qed
qed

lemma forEach_own_if:
  "forEach req rs st = Inr fin \<Longrightarrow> plain_prototype (validatedData st) \<Longrightarrow>
     k \<noteq> lit ''__proto__'' \<Longrightarrow>
     own (validatedData st) k \<noteq> None \<or>
     isPresent (get_property (body req) k) \<and>
     (\<exists>i<length rs. key (rs ! i) = k \<and> clean_at req rs st i) \<Longrightarrow>
     own (validatedData fin) k \<noteq> None"
proof (induction rs arbitrary: st)
  case Nil
  then show ?case by simp
next
  case (Cons r rs)
  from Cons.prems(1) obtain st1 where 1: "rule_callback req r st = Inr st1"
    and 2: "forEach req rs st1 = Inr fin"
    by (auto split: sum.splits)
  note p = rule_callback_plain [OF 1 Cons.prems(2)]
  from Cons.prems(4) [unfolded clean_at_Cons [OF 1]]
  consider (o) "own (validatedData st) k \<noteq> None"
    | (h) "isPresent (get_property (body req) k)" "key r = k" "errors st1 = []"
    | (l) "isPresent (get_property (body req) k)"
          "\<exists>i<length rs. key (rs ! i) = k \<and> clean_at req rs st1 i"
    by blast
  then have "own (validatedData st1) k \<noteq> None \<or>
     isPresent (get_property (body req) k) \<and>
     (\<exists>i<length rs. key (rs ! i) = k \<and> clean_at req rs st1 i)"
  proof cases
    case o
    from rule_callback_own_keeps [OF 1 o] show ?thesis by simp
  next
    case h
    from h Cons.prems(3) have "key r \<noteq> lit ''__proto__''"
      and "isPresent (get_property (body req) (key r))"
      by simp_all
    from rule_callback_own_if [OF 1 Cons.prems(2) this(1) h(3) this(2)] h(2)
    show ?thesis by simp
  next
    case l
    then show ?thesis by simp
  qed
  then show ?case by (rule Cons.IH [OF 2 p Cons.prems(3)])
qed

lemma forEach_dom_initial:
  assumes "forEach req rules initial = Inr fin" and "k \<noteq> lit ''__proto__''"
  shows "k \<in> dom (own (validatedData fin)) \<longleftrightarrow>
           isPresent (get_property (body req) k) \<and>
           (\<exists>i<length rules. key (rules ! i) = k \<and> clean_at req rules initial i)"
proof -
  have e: "own (validatedData (initial :: 'a vstate)) k = None"
    by (simp add: initial_def empty_object_def)
  have p: "plain_prototype (validatedData (initial :: 'a vstate))"
    by (simp add: initial_def)
  show ?thesis
  proof
    assume "k \<in> dom (own (validatedData fin))"
    then have "own (validatedData fin) k \<noteq> None" by (simp add: dom_def)
    from forEach_own_only_if [OF assms(1) this] e
    show "isPresent (get_property (body req) k) \<and>
           (\<exists>i<length rules. key (rules ! i) = k \<and> clean_at req rules initial i)"
      by simp
  next
    assume "isPresent (get_property (body req) k) \<and>
           (\<exists>i<length rules. key (rules ! i) = k \<and> clean_at req rules initial i)"
    then have "own (validatedData fin) k \<noteq> None"
      by (intro forEach_own_if [OF assms(1) p assms(2)] disjI2)
    then show "k \<in> dom (own (validatedData fin))" by (simp add: dom_def)
  qed
qed


lemma type_omitted_fails: "type_lookup_call type_omitted v = Inr False"
  by (simp add: type_lookup_call_def typeValidators_def inherited_call_def type_omitted_def)

lemma omitted_type_never_clean:
  assumes "isPresent (get_property (body req) (lit ''a''))"
  shows "\<not> clean_at req [plain_rule (lit ''a'') type_omitted True, r2] initial 0"
  using assms
  by (simp add: clean_at_def rule_callback_def validateType_def type_omitted_fails
        plain_rule_def initial_def Let_def)

section \<open>Single rules\<close>

lemma number_rule_callback:
  assumes "type r = lit ''number''" and "get_property (body req) (key r) = Json (JNumber n)"
  shows "rule_callback req r st =
           (case custom_check (Json (JNumber n)) (customValidator r) (errors st) of
              Inl e \<Rightarrow> Inl e
            | Inr es \<Rightarrow> store_if_clean (key r) (Json (JNumber n)) es (validatedData st))"
proof -
  have "min_check (key r) (Json (JNumber n)) (lit ''number'') (min_bound r) es = es" for es
    by (simp add: min_check_def split: option.splits)
  moreover
  have "max_check (key r) (Json (JNumber n)) (lit ''number'') (max_bound r) es = es" for es
    by (simp add: max_check_def split: option.splits)
  moreover
  have "regex_check (key r) (Json (JNumber n)) (lit ''number'') (regex r) es = Inr es" for es
    by (simp add: regex_check_def)
  ultimately show ?thesis
    using assms
    by (simp add: rule_callback_def isPresent_def validateType_def type_lookup_call_def
          typeValidators_def validateValue_def Let_def split: sum.splits)
qed

lemma validateType_no_member:
  assumes "typeValidators t = (None :: ('n jsval \<Rightarrow> bool) option)"
    and "inherited_call t v = None"
  shows "validateType k (v :: 'n jsval) t es = Inr (False, es @ [k @ lit '' should be a valid '' @ t])"
  using assms by (simp add: validateType_def type_lookup_call_def)

lemma typeValidators_own: "typeValidators t = None \<longleftrightarrow> t \<notin> set own_names"
  by (simp add: typeValidators_def own_names_def)

lemma inherited_call_None: "inherited_call t v = None \<longleftrightarrow> t \<notin> set Object_prototype_names"
  by (simp add: inherited_call_def Object_prototype_names_def Object_prototype_functions_def)

lemma validateType_unsupported:
  assumes "t \<notin> set own_names" and "t \<notin> set Object_prototype_names"
  shows "validateType k v t es = Inr (False, es @ [k @ lit '' should be a valid '' @ t])"
  using assms
  by (simp add: validateType_no_member typeValidators_own inherited_call_None)



section \<open>The claims\<close>

text \<open>
  C1, as the specification states it: a key named by a rule is in the sanitized body if and
  only if the error list was still empty when that rule's evaluation completed, also for
  a key whose value is absent. It fails for the rule \<^verbatim>\<open>{key: "a", type: "string"}\<close> and
  the body \<^verbatim>\<open>{}\<close>: the loop ends in the initial state, the error list is empty after
  the rule, and the key is not in the sanitized body, because the callback returns at the
  presence check before anything is written.
\<close>

theorem absent_key_clean_but_not_sanitized:
  "forEach \<lparr>body = Map.empty\<rparr> [plain_rule (lit ''a'') (lit ''string'') False] initial
     = Inr (initial :: nat vstate)
   \<and> clean_at \<lparr>body = Map.empty\<rparr> [plain_rule (lit ''a'') (lit ''string'') False]
        (initial :: nat vstate) 0
   \<and> lit ''a'' \<notin> dom (own (validatedData (initial :: nat vstate)))"
  by (simp add: clean_at_def run_simps)

text \<open>
  The key \<^verbatim>\<open>__proto__\<close> is apart. Under the rule
  \<^verbatim>\<open>{key: "__proto__", type: "string"}\<close> and the body parsed from
  \<^verbatim>\<open>{"__proto__": "x"}\<close>, the value is present and the error list stays empty, but the
  assignment \<^verbatim>\<open>validatedData["__proto__"] = "x"\<close> reaches the setter inherited from
  \<^verbatim>\<open>Object.prototype\<close>, which ignores a string: no own property is created.
\<close>

lemma proto_key_clean_but_not_sanitized:
  "forEach \<lparr>body = [lit ''__proto__'' \<mapsto> JString (lit ''x'')]\<rparr>
     [plain_rule (lit ''__proto__'') (lit ''string'') False] initial
     = Inr (initial :: nat vstate)
   \<and> clean_at \<lparr>body = [lit ''__proto__'' \<mapsto> JString (lit ''x'')]\<rparr>
        [plain_rule (lit ''__proto__'') (lit ''string'') False] (initial :: nat vstate) 0
   \<and> lit ''__proto__'' \<notin> dom (own (validatedData (initial :: nat vstate)))"
  by (simp add: clean_at_def run_simps)

text \<open>
  C1, amended: when the loop over the rules completes, a key other than \<^verbatim>\<open>__proto__\<close>
  is an own property of the sanitized body if and only if its value in the body is
  present and the error list was still empty when the evaluation of some rule naming that
  key completed.
\<close>

theorem sanitized_key_iff:
  assumes "forEach req rules initial = Inr fin" and "k \<noteq> lit ''__proto__''"
  shows "k \<in> dom (own (validatedData fin)) \<longleftrightarrow>
           isPresent (get_property (body req) k) \<and>
           (\<exists>i<length rules. key (rules ! i) = k \<and> clean_at req rules initial i)"
  using assms by (rule forEach_dom_initial)

theorem sanitized_key_iff_witness:
  "forEach \<lparr>body = [lit ''a'' \<mapsto> JString (lit ''x'')]\<rparr>
     [plain_rule (lit ''a'') (lit ''string'') False] initial
     = Inr \<lparr>errors = [],
            validatedData = \<lparr>own = [lit ''a'' \<mapsto> Json (JString (lit ''x'') :: nat json)],
                             prototype = ObjectPrototype\<rparr>\<rparr>
   \<and> lit ''a'' \<noteq> lit ''__proto__''
   \<and> lit ''a'' \<in> dom (own (validatedData
          \<lparr>errors = [],
           validatedData = \<lparr>own = [lit ''a'' \<mapsto> Json (JString (lit ''x'') :: nat json)],
                            prototype = ObjectPrototype\<rparr>\<rparr>))
   \<and> isPresent (get_property (body \<lparr>body = [lit ''a'' \<mapsto> (JString (lit ''x'') :: nat json)]\<rparr>)
         (lit ''a''))
   \<and> (\<exists>i<length [plain_rule (lit ''a'') (lit ''string'') False :: nat rule].
         key ([plain_rule (lit ''a'') (lit ''string'') False :: nat rule] ! i) = lit ''a''
         \<and> clean_at \<lparr>body = [lit ''a'' \<mapsto> (JString (lit ''x'') :: nat json)]\<rparr>
              [plain_rule (lit ''a'') (lit ''string'') False] initial i)"
proof -
  have h: "forEach \<lparr>body = [lit ''a'' \<mapsto> JString (lit ''x'')]\<rparr>
     [plain_rule (lit ''a'') (lit ''string'') False] initial
     = Inr \<lparr>errors = [],
            validatedData = \<lparr>own = [lit ''a'' \<mapsto> Json (JString (lit ''x'') :: nat json)],
                             prototype = ObjectPrototype\<rparr>\<rparr>"
    by (simp add: run_simps)
  have n: "lit ''a'' \<noteq> lit ''__proto__''" by simp
  have d: "lit ''a'' \<in> dom (own (validatedData
          \<lparr>errors = [],
           validatedData = \<lparr>own = [lit ''a'' \<mapsto> Json (JString (lit ''x'') :: nat json)],
                            prototype = ObjectPrototype\<rparr>\<rparr>))"
    by simp
  note r = sanitized_key_iff [OF h n, THEN iffD1, OF d]
  show ?thesis
    by (rule conjI [OF h], rule conjI [OF n], rule conjI [OF d], rule r)
qed

text \<open>
  C2, as the specification states it, has two halves over the same two rules
  \<^verbatim>\<open>[{key: "a", required: true}, {key: "b", type: "string"}]\<close>. The second half speaks
  of a body where \<^verbatim>\<open>a\<close> passes and \<^verbatim>\<open>b\<close> fails its type check, and has \<^verbatim>\<open>a\<close>
  in the sanitized body. The rule for \<^verbatim>\<open>a\<close> has no type, so any present value of
  \<^verbatim>\<open>a\<close> fails the type check with \<^verbatim>\<open>a should be a valid undefined\<close>: the body
  \<^verbatim>\<open>{a: "x", b: true}\<close> ends with two errors and an empty sanitized body, and no body
  at all puts \<^verbatim>\<open>a\<close> into the sanitized body under these rules.
\<close>

theorem untyped_rule_never_sanitized:
  "forEach \<lparr>body = [lit ''a'' \<mapsto> JString (lit ''x''), lit ''b'' \<mapsto> JBool True]\<rparr>
     [plain_rule (lit ''a'') type_omitted True, plain_rule (lit ''b'') (lit ''string'') False]
     initial
     = Inr \<lparr>errors = [lit ''a should be a valid undefined'', lit ''b should be a valid string''],
            validatedData = (empty_object :: nat js_object)\<rparr>
   \<and> \<not> (\<exists>(req :: nat request) fin.
          forEach req
            [plain_rule (lit ''a'') type_omitted True, plain_rule (lit ''b'') (lit ''string'') False]
            initial = Inr fin
          \<and> lit ''a'' \<in> dom (own (validatedData fin)))"
proof
  show "forEach \<lparr>body = [lit ''a'' \<mapsto> JString (lit ''x''), lit ''b'' \<mapsto> JBool True]\<rparr>
     [plain_rule (lit ''a'') type_omitted True, plain_rule (lit ''b'') (lit ''string'') False]
     initial
     = Inr \<lparr>errors = [lit ''a should be a valid undefined'', lit ''b should be a valid string''],
            validatedData = (empty_object :: nat js_object)\<rparr>"
    by (simp add: run_simps type_omitted_def lit_append [symmetric])
next
  let ?rules = "[plain_rule (lit ''a'') type_omitted True,
                 plain_rule (lit ''b'') (lit ''string'') False] :: nat rule list"
  show "\<not> (\<exists>(req :: nat request) fin.
          forEach req ?rules initial = Inr fin \<and> lit ''a'' \<in> dom (own (validatedData fin)))"
  proof
    assume "\<exists>(req :: nat request) fin.
          forEach req ?rules initial = Inr fin \<and> lit ''a'' \<in> dom (own (validatedData fin))"
    then obtain req :: "nat request" and fin where
      run: "forEach req ?rules initial = Inr fin"
      and a: "lit ''a'' \<in> dom (own (validatedData fin))"
      by blast
    have n: "lit ''a'' \<noteq> lit ''__proto__''" by simp
    from forEach_dom_initial [OF run n] a
    obtain i where p: "isPresent (get_property (body req) (lit ''a''))"
      and i: "i < length ?rules" "key (?rules ! i) = lit ''a''" "clean_at req ?rules initial i"
      by blast
    from i(1) have "i = 0 \<or> i = 1" by auto
    then show False
    proof
      assume "i = 0"
      with i(3) omitted_type_never_clean [OF p] show False by simp
    next
      assume "i = 1"
      with i(2) show False by (simp add: plain_rule_def)
    qed
  qed
qed

text \<open>
  C2, amended. With the rules as given and the body \<^verbatim>\<open>{b: "ok"}\<close>, the error list is
  \<^verbatim>\<open>["a is required"]\<close> and the sanitized body does not contain \<^verbatim>\<open>b\<close>. Conversely,
  once the rule for \<^verbatim>\<open>a\<close> is given the type \<^verbatim>\<open>string\<close>, the body
  \<^verbatim>\<open>{a: "x", b: true}\<close>, where \<^verbatim>\<open>a\<close> passes and \<^verbatim>\<open>b\<close> fails its type check,
  leaves \<^verbatim>\<open>a\<close> in the sanitized body while the handler rejects.
\<close>

theorem ordering_quirk:
  "forEach \<lparr>body = [lit ''b'' \<mapsto> JString (lit ''ok'')]\<rparr>
     [plain_rule (lit ''a'') type_omitted True, plain_rule (lit ''b'') (lit ''string'') False]
     initial
     = Inr \<lparr>errors = [lit ''a is required''], validatedData = (empty_object :: nat js_object)\<rparr>
   \<and> forEach \<lparr>body = [lit ''a'' \<mapsto> JString (lit ''x''), lit ''b'' \<mapsto> JBool True]\<rparr>
     [plain_rule (lit ''a'') (lit ''string'') True, plain_rule (lit ''b'') (lit ''string'') False]
     initial
     = Inr \<lparr>errors = [lit ''b should be a valid string''],
            validatedData = \<lparr>own = [lit ''a'' \<mapsto> Json (JString (lit ''x'') :: nat json)],
                             prototype = ObjectPrototype\<rparr>\<rparr>
   \<and> validateRequestBody
     [plain_rule (lit ''a'') (lit ''string'') True, plain_rule (lit ''b'') (lit ''string'') False]
     \<lparr>body = [lit ''a'' \<mapsto> JString (lit ''x''), lit ''b'' \<mapsto> (JBool True :: nat json)]\<rparr>
     = Inr (Responded 200 \<lparr>status = 400, message = [lit ''b should be a valid string'']\<rparr>)"
  by (simp add: validateRequestBody_def HTTP_STATUS_OK_def HTTP_STATUS_BAD_REQUEST_def
        run_simps type_omitted_def lit_append [symmetric])

text \<open>
  C3: when the loop over the rules has completed with a non-empty error list, the handler
  responds with the transport status 200 and the payload of status 400 whose message is
  the error list; with an empty error list it replaces the body by the sanitized record
  and calls the next stage. The error list is the concatenation, in the order of the
  rules, of what each rule pushes.
\<close>

theorem request_outcome:
  assumes "forEach req rules initial = Inr st"
  shows "(errors st \<noteq> [] \<longrightarrow>
            validateRequestBody rules req
              = Inr (Responded 200 \<lparr>status = 400, message = errors st\<rparr>))
       \<and> (errors st = [] \<longrightarrow>
            validateRequestBody rules req = Inr (Continued (validatedData st)))
       \<and> (\<exists>ms. map (pushed_by req) rules = map Inr ms \<and> errors st = concat ms)"
proof -
  from forEach_errors [OF assms]
  have "\<exists>ms. map (pushed_by req) rules = map Inr ms \<and> errors st = concat ms"
    by (simp add: initial_def)
  then show ?thesis
    using assms
    by (simp add: validateRequestBody_def HTTP_STATUS_OK_def HTTP_STATUS_BAD_REQUEST_def)
qed

theorem request_outcome_witness:
  "forEach \<lparr>body = [lit ''name'' \<mapsto> JString (lit ''Al'')]\<rparr>
     [(plain_rule (lit ''name'') (lit ''string'') True)\<lparr>min_bound := Some (safe_integer 3)\<rparr>]
     initial
     = Inr \<lparr>errors = [lit ''name should have at least 3 characters''],
            validatedData = (empty_object :: nat js_object)\<rparr>
   \<and> validateRequestBody
     [(plain_rule (lit ''name'') (lit ''string'') True)\<lparr>min_bound := Some (safe_integer 3)\<rparr>]
     \<lparr>body = [lit ''name'' \<mapsto> (JString (lit ''Al'') :: nat json)]\<rparr>
     = Inr (Responded 200
         \<lparr>status = 400, message = [lit ''name should have at least 3 characters'']\<rparr>)
   \<and> forEach \<lparr>body = [lit ''name'' \<mapsto> JString (lit ''Alice'')]\<rparr>
     [(plain_rule (lit ''name'') (lit ''string'') True)\<lparr>min_bound := Some (safe_integer 3)\<rparr>]
     initial
     = Inr \<lparr>errors = [],
            validatedData =
              \<lparr>own = [lit ''name'' \<mapsto> Json (JString (lit ''Alice'') :: nat json)],
               prototype = ObjectPrototype\<rparr>\<rparr>
   \<and> validateRequestBody
     [(plain_rule (lit ''name'') (lit ''string'') True)\<lparr>min_bound := Some (safe_integer 3)\<rparr>]
     \<lparr>body = [lit ''name'' \<mapsto> (JString (lit ''Alice'') :: nat json)]\<rparr>
     = Inr (Continued \<lparr>own = [lit ''name'' \<mapsto> Json (JString (lit ''Alice''))],
                       prototype = ObjectPrototype\<rparr>)"
proof -
  let ?rules =
    "[(plain_rule (lit ''name'') (lit ''string'') True)\<lparr>min_bound := Some (safe_integer 3)\<rparr>]
       :: nat rule list"
  have h: "forEach \<lparr>body = [lit ''name'' \<mapsto> JString (lit ''Al'')]\<rparr> ?rules initial
     = Inr \<lparr>errors = [lit ''name should have at least 3 characters''],
            validatedData = (empty_object :: nat js_object)\<rparr>"
    by (simp add: run_simps lit_append [symmetric])
  have g: "forEach \<lparr>body = [lit ''name'' \<mapsto> JString (lit ''Alice'')]\<rparr> ?rules initial
     = Inr \<lparr>errors = [],
            validatedData =
              \<lparr>own = [lit ''name'' \<mapsto> Json (JString (lit ''Alice'') :: nat json)],
               prototype = ObjectPrototype\<rparr>\<rparr>"
    by (simp add: run_simps)
  have 1: "validateRequestBody ?rules
     \<lparr>body = [lit ''name'' \<mapsto> (JString (lit ''Al'') :: nat json)]\<rparr>
     = Inr (Responded 200
         \<lparr>status = 400, message = [lit ''name should have at least 3 characters'']\<rparr>)"
    using request_outcome [OF h, THEN conjunct1] by simp
  have 2: "validateRequestBody ?rules
     \<lparr>body = [lit ''name'' \<mapsto> (JString (lit ''Alice'') :: nat json)]\<rparr>
     = Inr (Continued \<lparr>own = [lit ''name'' \<mapsto> Json (JString (lit ''Alice''))],
                       prototype = ObjectPrototype\<rparr>)"
    using request_outcome [OF g, THEN conjunct2, THEN conjunct1] by simp
  from h 1 g 2 show ?thesis by (intro conjI)
qed

text \<open>
  C4: under a rule of type \<^verbatim>\<open>number\<close>, whatever its \<^verbatim>\<open>min\<close> and \<^verbatim>\<open>max\<close>, a
  numeric value produces no range error: the callback pushes at most the message of the
  custom validator, and gives the same result when \<^verbatim>\<open>min\<close> and \<^verbatim>\<open>max\<close> are
  replaced by anything else.
\<close>

theorem number_bounds_not_applied:
  assumes "type r = lit ''number''" and "get_property (body req) (key r) = Json (JNumber n)"
  shows "rule_callback req r st =
           (case custom_check (Json (JNumber n)) (customValidator r) (errors st) of
              Inl e \<Rightarrow> Inl e
            | Inr es \<Rightarrow> store_if_clean (key r) (Json (JNumber n)) es (validatedData st))
       \<and> rule_callback req (r\<lparr>min_bound := mn, max_bound := mx\<rparr>) st = rule_callback req r st"
proof -
  have 1: "type (r\<lparr>min_bound := mn, max_bound := mx\<rparr>) = lit ''number''"
    using assms(1) by simp
  have 2: "get_property (body req) (key (r\<lparr>min_bound := mn, max_bound := mx\<rparr>))
             = Json (JNumber n)"
    using assms(2) by simp
  show ?thesis
    unfolding number_rule_callback [OF 1 2] number_rule_callback [OF assms]
    by (simp cong: sum.case_cong if_cong)
qed

theorem number_bounds_not_applied_witness:
  "type ((plain_rule (lit ''age'') (lit ''number'') False :: int rule)
           \<lparr>min_bound := Some (safe_integer 18)\<rparr>) = lit ''number''
   \<and> get_property (body \<lparr>body = [lit ''age'' \<mapsto> JNumber (5 :: int)]\<rparr>)
        (key ((plain_rule (lit ''age'') (lit ''number'') False :: int rule)
               \<lparr>min_bound := Some (safe_integer 18)\<rparr>))
      = Json (JNumber 5)
   \<and> rule_callback \<lparr>body = [lit ''age'' \<mapsto> JNumber (5 :: int)]\<rparr>
        ((plain_rule (lit ''age'') (lit ''number'') False)
           \<lparr>min_bound := Some (safe_integer 18)\<rparr>) initial
      = Inr \<lparr>errors = [],
             validatedData = \<lparr>own = [lit ''age'' \<mapsto> Json (JNumber 5)],
                              prototype = ObjectPrototype\<rparr>\<rparr>"
proof -
  let ?r = "(plain_rule (lit ''age'') (lit ''number'') False :: int rule)
              \<lparr>min_bound := Some (safe_integer 18)\<rparr>"
  have t: "type ?r = lit ''number''"
    by (simp add: plain_rule_def)
  have v: "get_property (body \<lparr>body = [lit ''age'' \<mapsto> JNumber (5 :: int)]\<rparr>) (key ?r)
      = Json (JNumber 5)"
    by (simp add: plain_rule_def get_property_def)
  have "rule_callback \<lparr>body = [lit ''age'' \<mapsto> JNumber (5 :: int)]\<rparr> ?r initial
      = Inr \<lparr>errors = [],
             validatedData = \<lparr>own = [lit ''age'' \<mapsto> Json (JNumber 5)],
                              prototype = ObjectPrototype\<rparr>\<rparr>"
    using number_bounds_not_applied [OF t v, of initial, THEN conjunct1]
    by (simp add: custom_check_def plain_rule_def initial_def store_if_clean_def assign_def
          inherited_write_def empty_object_def)
  with t v show ?thesis by (intro conjI)
qed

text \<open>
  C5: for a rule with \<^verbatim>\<open>required\<close> true whose value is \<^verbatim>\<open>undefined\<close>,
  \<^verbatim>\<open>null\<close> or the empty string, the callback pushes the one message
  \<^verbatim>\<open>{key} is required\<close> and does nothing else: no type, constraint or custom check
  takes part in the result. The message is in the error list of every completed run over
  rules that include this one.
\<close>

theorem required_absent_pushes_once:
  assumes "required r"
    and "get_property (body req) (key r) \<in> {JUndefined, Json JNull, Json (JString [])}"
  shows "rule_callback req r st = Inr (st\<lparr>errors := errors st @ [key r @ lit '' is required'']\<rparr>)
       \<and> pushed_by req r = Inr [key r @ lit '' is required'']
       \<and> (r \<in> set rules \<and> forEach req rules initial = Inr fin
            \<longrightarrow> key r @ lit '' is required'' \<in> set (errors fin))"
proof -
  from assms(2) have a: "\<not> isPresent (get_property (body req) (key r))"
    by (auto simp: isPresent_def)
  have 1: "rule_callback req r s = Inr (s\<lparr>errors := errors s @ [key r @ lit '' is required'']\<rparr>)"
    for s
    using assms(1) a by (simp add: rule_callback_def Let_def)
  have 2: "pushed_by req r = Inr [key r @ lit '' is required'']"
    by (simp add: pushed_by_def 1 initial_def)
  have 3: "key r @ lit '' is required'' \<in> set (errors fin)"
    if "r \<in> set rules" "forEach req rules initial = Inr fin"
    using forEach_member_pushed [OF that(2) that(1) 2] by simp
  from 1 2 3 show ?thesis by blast
qed

theorem required_absent_pushes_once_witness:
  "required (plain_rule (lit ''a'') (lit ''string'') True :: nat rule)
   \<and> get_property (body \<lparr>body = (Map.empty :: nat json_object)\<rparr>)
        (key (plain_rule (lit ''a'') (lit ''string'') True :: nat rule))
       \<in> {JUndefined, Json JNull, Json (JString [])}
   \<and> rule_callback \<lparr>body = Map.empty\<rparr> (plain_rule (lit ''a'') (lit ''string'') True)
        (initial :: nat vstate)
       = Inr \<lparr>errors = [lit ''a is required''], validatedData = empty_object\<rparr>
   \<and> forEach \<lparr>body = Map.empty\<rparr> [plain_rule (lit ''a'') (lit ''string'') True]
        (initial :: nat vstate)
       = Inr \<lparr>errors = [lit ''a is required''], validatedData = empty_object\<rparr>
   \<and> lit ''a is required''
       \<in> set (errors \<lparr>errors = [lit ''a is required''],
                      validatedData = (empty_object :: nat js_object)\<rparr>)"
proof -
  let ?r = "plain_rule (lit ''a'') (lit ''string'') True :: nat rule"
  let ?req = "\<lparr>body = (Map.empty :: nat json_object)\<rparr>"
  let ?fin = "\<lparr>errors = [lit ''a is required''],
               validatedData = (empty_object :: nat js_object)\<rparr>"
  have q: "required ?r" by (simp add: plain_rule_def)
  have v: "get_property (body ?req) (key ?r) \<in> {JUndefined, Json JNull, Json (JString [])}"
    by (simp add: get_property_def plain_rule_def Object_prototype_functions_def)
  have k: "key ?r @ lit '' is required'' = lit ''a is required''"
    by (simp add: plain_rule_def lit_append [symmetric])
  note c = required_absent_pushes_once [OF q v, of initial "[?r]" ?fin]
  have 1: "rule_callback ?req ?r initial = Inr ?fin"
    using c [THEN conjunct1] k by (simp add: initial_def)
  have 2: "forEach ?req [?r] initial = Inr ?fin"
    using 1 by simp
  have 3: "lit ''a is required'' \<in> set (errors ?fin)"
    using c [THEN conjunct2, THEN conjunct2] 2 k by simp
  from q v 1 2 3 show ?thesis by (intro conjI)
qed




text \<open>
  C7: under a rule of type \<^verbatim>\<open>string\<close> with \<^verbatim>\<open>min = 3\<close>, the value \<^verbatim>\<open>"ab"\<close>
  gives exactly the error \<^verbatim>\<open>{key} should have at least 3 characters\<close> and the value
  \<^verbatim>\<open>"abc"\<close> gives no error; under a rule of type \<^verbatim>\<open>array\<close> with
  \<^verbatim>\<open>max = 2\<close>, an array of three elements gives one error, which contains the text
  \<^verbatim>\<open>at most 2 items\<close>. The key, the \<^verbatim>\<open>required\<close> flag and the three elements are
  arbitrary; the value \<^verbatim>\<open>"abc"\<close> is kept as an own property of the sanitized body,
  unless the key is \<^verbatim>\<open>__proto__\<close>, whose setter ignores a string.
\<close>

theorem length_examples:
  "rule_callback \<lparr>body = [k \<mapsto> JString (lit ''ab'')]\<rparr>
     ((plain_rule k (lit ''string'') q)\<lparr>min_bound := Some (safe_integer 3)\<rparr>) initial
     = Inr \<lparr>errors = [k @ lit '' should have at least 3 characters''],
            validatedData = empty_object\<rparr>
   \<and> rule_callback \<lparr>body = [k \<mapsto> JString (lit ''abc'')]\<rparr>
     ((plain_rule k (lit ''string'') q)\<lparr>min_bound := Some (safe_integer 3)\<rparr>) initial
     = Inr \<lparr>errors = [],
            validatedData =
              (if k = lit ''__proto__'' then empty_object
               else \<lparr>own = [k \<mapsto> Json (JString (lit ''abc''))], prototype = ObjectPrototype\<rparr>)\<rparr>
   \<and> rule_callback \<lparr>body = [k \<mapsto> JArray [x, y, z]]\<rparr>
     ((plain_rule k (lit ''array'') q)\<lparr>max_bound := Some (safe_integer 2)\<rparr>) initial
     = Inr \<lparr>errors = [(k @ lit '' should have '') @ lit ''at most 2 items'' @ lit '';''],
            validatedData = empty_object\<rparr>"
  by (simp add: run_simps lit_def)

text \<open>
  C8: with the empty rule list the handler never rejects, whatever the body: the loop
  leaves the error list empty, and the handler replaces the body by the empty record and
  calls the next stage.
\<close>

theorem empty_rules_continue:
  "validateRequestBody [] req = Inr (Continued empty_object)
   \<and> forEach req [] initial = Inr initial
   \<and> errors (initial :: 'n vstate) = []"
  by (simp add: validateRequestBody_def initial_def)

text \<open>
  C9 says that a type that is not one of the eight supported tags fails the type check.
  The code looks the type up on an object literal, which inherits from
  \<^verbatim>\<open>Object.prototype\<close>: for the type \<^verbatim>\<open>toString\<close>, which is not one of the eight
  tags, \<^verbatim>\<open>typeValidators[type]?.(value)\<close> is the text \<^verbatim>\<open>[object Object]\<close>, which is
  truthy. The type check passes for every value and pushes nothing, and the handler
  continues with the value in the sanitized body.
\<close>

theorem inherited_type_name_passes:
  "lit ''toString'' \<notin> set own_names
   \<and> validateType k v (lit ''toString'') es = Inr (True, es)
   \<and> validateRequestBody [plain_rule (lit ''a'') (lit ''toString'') False]
        \<lparr>body = [lit ''a'' \<mapsto> JNumber n]\<rparr>
      = Inr (Continued \<lparr>own = [lit ''a'' \<mapsto> Json (JNumber n)], prototype = ObjectPrototype\<rparr>)"
  by (simp add: own_names_def validateRequestBody_def run_simps)

text \<open>
  C10: under a rule of type \<^verbatim>\<open>array\<close> and for an array value, whenever the callback
  returns, a failed \<^verbatim>\<open>min\<close> has pushed, first, the message
  \<^verbatim>\<open> {key} should have at least {min} items\<close>, which begins with a space, and a failed
  \<^verbatim>\<open>max\<close> has pushed the message \<^verbatim>\<open>{key} should have at most {max} items;\<close>,
  which ends with a semicolon.
\<close>

theorem array_length_messages:
  assumes "type r = lit ''array''"
    and "get_property (body req) (key r) = Json (JArray xs)"
    and "rule_callback req r st = Inr st'"
  shows "(min_bound r = Some m \<and> above m (length xs) \<longrightarrow>
           (\<exists>rest. errors st' = errors st @
              [lit '' '' @ key r @ lit '' should have at least '' @ shown m @ lit '' items'']
              @ rest))
       \<and> (max_bound r = Some M \<and> below M (length xs) \<longrightarrow>
           (\<exists>pre rest. errors st' = errors st @ pre @
              [key r @ lit '' should have at most '' @ shown M @ lit '' items;''] @ rest))
       \<and> hd (lit '' '' @ key r @ lit '' should have at least '' @ shown m @ lit '' items'')
           = 0x20
       \<and> last (key r @ lit '' should have at most '' @ shown M @ lit '' items;'') = 0x3B"
proof -
  let ?k = "key r" and ?v = "Json (JArray xs) :: 'a jsval" and ?t = "lit ''array''"
  from assms(3) obtain app where
    app: "rule_errors req r = Inr app" "errors st' = errors st @ app"
    by (subst (asm) rule_callback_char)
       (auto simp: store_if_clean_def split: sum.splits if_splits)
  have tl: "type_lookup_call ?t ?v = Inr True"
    by (simp add: type_lookup_call_def typeValidators_def)
  have rx: "regex_check ?k ?v ?t (regex r) es = Inr es" for es
    by (simp add: regex_check_def)
  from app(1) assms(1,2)
  have "custom_check ?v (customValidator r)
          (max_check ?k ?v ?t (max_bound r) (min_check ?k ?v ?t (min_bound r) [])) = Inr app"
    by (simp add: rule_errors_def isPresent_def tl rx value_errors_def Let_def)
  then obtain c where
    c: "app = max_check ?k ?v ?t (max_bound r) (min_check ?k ?v ?t (min_bound r) []) @ c"
    by (subst (asm) custom_check_append) (auto simp: map_sum_def split: sum.splits)
  have mx: "max_check ?k ?v ?t (max_bound r) (min_check ?k ?v ?t (min_bound r) [])
      = min_check ?k ?v ?t (min_bound r) [] @ max_check ?k ?v ?t (max_bound r) []"
    by (rule max_check_append)
  have 1: "\<exists>rest. errors st' = errors st @
              [lit '' '' @ key r @ lit '' should have at least '' @ shown m @ lit '' items'']
              @ rest"
    if "min_bound r = Some m" "above m (length xs)"
  proof -
    from that have "min_check ?k ?v ?t (min_bound r) []
      = [lit '' '' @ key r @ lit '' should have at least '' @ shown m @ lit '' items'']"
      by (simp add: min_check_def length_below_def js_length_def)
    with app(2) c mx show ?thesis by simp
  qed
  have 2: "\<exists>pre rest. errors st' = errors st @ pre @
              [key r @ lit '' should have at most '' @ shown M @ lit '' items;''] @ rest"
    if "max_bound r = Some M" "below M (length xs)"
  proof -
    from that have "max_check ?k ?v ?t (max_bound r) []
      = [key r @ lit '' should have at most '' @ shown M @ lit '' items;'']"
      by (simp add: max_check_def length_above_def js_length_def)
    with app(2) c mx
    have "errors st' = errors st @ min_check ?k ?v ?t (min_bound r) [] @
              [key r @ lit '' should have at most '' @ shown M @ lit '' items;''] @ c"
      by simp
    then show ?thesis by blast
  qed
  have 3: "hd (lit '' '' @ key r @ lit '' should have at least '' @ shown m @ lit '' items'')
           = 0x20"
    by (simp add: lit_def)
  have 4: "last (key r @ lit '' should have at most '' @ shown M @ lit '' items;'') = 0x3B"
    by (simp add: lit_def)
  from 1 2 3 4 show ?thesis by blast
qed

theorem array_length_messages_witness:
  "type ((plain_rule (lit ''tags'') (lit ''array'') False :: nat rule)
           \<lparr>min_bound := Some (safe_integer 3), max_bound := Some (safe_integer 1)\<rparr>)
     = lit ''array''
   \<and> get_property (body \<lparr>body = [lit ''tags'' \<mapsto> (JArray [JNull, JNull] :: nat json)]\<rparr>)
        (key ((plain_rule (lit ''tags'') (lit ''array'') False :: nat rule)
               \<lparr>min_bound := Some (safe_integer 3), max_bound := Some (safe_integer 1)\<rparr>))
       = Json (JArray [JNull, JNull])
   \<and> rule_callback \<lparr>body = [lit ''tags'' \<mapsto> (JArray [JNull, JNull] :: nat json)]\<rparr>
        ((plain_rule (lit ''tags'') (lit ''array'') False)
           \<lparr>min_bound := Some (safe_integer 3), max_bound := Some (safe_integer 1)\<rparr>) initial
       = Inr \<lparr>errors = [lit '' tags should have at least 3 items'',
                         lit ''tags should have at most 1 items;''],
              validatedData = empty_object\<rparr>
   \<and> above (safe_integer 3) (length [JNull, JNull :: nat json])
   \<and> below (safe_integer 1) (length [JNull, JNull :: nat json])
   \<and> (\<exists>rest. [lit '' tags should have at least 3 items'', lit ''tags should have at most 1 items;'']
         = [lit '' tags should have at least 3 items''] @ rest)
   \<and> (\<exists>pre rest.
         [lit '' tags should have at least 3 items'', lit ''tags should have at most 1 items;'']
         = pre @ [lit ''tags should have at most 1 items;''] @ rest)"
proof -
  let ?r = "(plain_rule (lit ''tags'') (lit ''array'') False :: nat rule)
              \<lparr>min_bound := Some (safe_integer 3), max_bound := Some (safe_integer 1)\<rparr>"
  let ?req = "\<lparr>body = [lit ''tags'' \<mapsto> (JArray [JNull, JNull] :: nat json)]\<rparr>"
  let ?fin = "\<lparr>errors = [lit '' tags should have at least 3 items'',
                         lit ''tags should have at most 1 items;''],
              validatedData = (empty_object :: nat js_object)\<rparr>"
  have t: "type ?r = lit ''array''" by (simp add: plain_rule_def)
  have v: "get_property (body ?req) (key ?r) = Json (JArray [JNull, JNull])"
    by (simp add: plain_rule_def get_property_def)
  have h: "rule_callback ?req ?r initial = Inr ?fin"
    by (simp add: run_simps lit_append [symmetric])
  have a: "above (safe_integer 3) (length [JNull, JNull :: nat json])" by simp
  have b: "below (safe_integer 1) (length [JNull, JNull :: nat json])" by simp
  have k1: "lit '' '' @ key ?r @ lit '' should have at least '' @ shown (safe_integer 3)
              @ lit '' items''
      = lit '' tags should have at least 3 items''"
    by (simp add: plain_rule_def lit_append [symmetric])
  have k2: "key ?r @ lit '' should have at most '' @ shown (safe_integer 1) @ lit '' items;''
      = lit ''tags should have at most 1 items;''"
    by (simp add: plain_rule_def lit_append [symmetric])
  note c = array_length_messages [OF t v h, of "safe_integer 3" "safe_integer 1"]
  have 1: "\<exists>rest. [lit '' tags should have at least 3 items'', lit ''tags should have at most 1 items;'']
         = [lit '' tags should have at least 3 items''] @ rest"
    using c [THEN conjunct1] a k1 by (simp add: plain_rule_def initial_def)
  have 2: "\<exists>pre rest.
         [lit '' tags should have at least 3 items'', lit ''tags should have at most 1 items;'']
         = pre @ [lit ''tags should have at most 1 items;''] @ rest"
    using c [THEN conjunct2, THEN conjunct1] b k2 by (simp add: plain_rule_def initial_def)
  from t v h a b 1 2 show ?thesis by (intro conjI)
qed

end
